theory Spec2Isabelle
  imports Main "HOL-Library.Sublist"
begin

section \<open>JavaScript values\<close>

text \<open>
  \<^verbatim>\<open>useFetchCID.ts\<close> handles three kinds of untyped data: the payload the gateway
  returns (\<^verbatim>\<open>Promise<any>\<close>), the value a failed call is rejected with
  (\<^verbatim>\<open>catch (error: unknown)\<close>) and the cached response.  They are modelled by one
  datatype of JavaScript data values: \<^verbatim>\<open>undefined\<close>, \<^verbatim>\<open>null\<close>, booleans, integral
  numbers, strings and objects with string-keyed data properties.  An \<^verbatim>\<open>Error\<close>
  instance is an object whose \<^verbatim>\<open>name\<close> and \<^verbatim>\<open>message\<close> are listed among its properties
  (property reads and the \<^verbatim>\<open>in\<close> operator follow the prototype chain, so an inherited
  property and an own one are indistinguishable to the code).  Arrays, functions,
  symbols, accessors and non-integral numbers are outside the model.
\<close>

datatype jsval =
    JUndefined
  | JNull
  | JBool bool
  | JNum int
  | JStr string
  | JObj "(string \<times> jsval) list"

text \<open>A settled promise: \<open>Inl\<close> carries the value it was rejected with (the thrown value),
  \<open>Inr\<close> the value it was fulfilled with.\<close>

type_synonym 'a promise = "jsval + 'a"

definition TypeError :: "string \<Rightarrow> jsval" where
  "TypeError msg = JObj [(''name'', JStr ''TypeError''), (''message'', JStr msg)]"

text \<open>Truthiness, as the conditions \<^verbatim>\<open>if (cachedResponse)\<close>, \<^verbatim>\<open>if (isAuthError)\<close> and the
  operator \<^verbatim>\<open>||\<close> test it.\<close>

fun truthy :: "jsval \<Rightarrow> bool" where
  "truthy JUndefined = False"
| "truthy JNull = False"
| "truthy (JBool b) = b"
| "truthy (JNum n) = (n \<noteq> 0)"
| "truthy (JStr s) = (s \<noteq> [])"
| "truthy (JObj ps) = True"

fun nullish :: "jsval \<Rightarrow> bool" where
  "nullish JUndefined = True"
| "nullish JNull = True"
| "nullish v = False"

text \<open>\<^verbatim>\<open>typeof x\<close>; note \<^verbatim>\<open>typeof null === "object"\<close>.\<close>

fun js_typeof :: "jsval \<Rightarrow> string" where
  "js_typeof JUndefined = ''undefined''"
| "js_typeof JNull = ''object''"
| "js_typeof (JBool b) = ''boolean''"
| "js_typeof (JNum n) = ''number''"
| "js_typeof (JStr s) = ''string''"
| "js_typeof (JObj ps) = ''object''"

text \<open>Reading property \<open>p\<close> of a value that is neither \<^verbatim>\<open>null\<close> nor \<^verbatim>\<open>undefined\<close>: a
  primitive has none of the properties the code reads.\<close>

fun property :: "jsval \<Rightarrow> string \<Rightarrow> jsval" where
  "property (JObj ps) p = (case map_of ps p of Some v \<Rightarrow> v | None \<Rightarrow> JUndefined)"
| "property v p = JUndefined"

text \<open>\<^verbatim>\<open>x.p\<close>: a TypeError on \<^verbatim>\<open>null\<close> and \<^verbatim>\<open>undefined\<close>.\<close>

definition get :: "jsval \<Rightarrow> string \<Rightarrow> jsval promise" where
  "get x p =
     (if nullish x then Inl (TypeError ''Cannot read properties of null or undefined'')
      else Inr (property x p))"

text \<open>\<^verbatim>\<open>x?.p\<close>: \<^verbatim>\<open>undefined\<close> on \<^verbatim>\<open>null\<close> and \<^verbatim>\<open>undefined\<close>.\<close>

definition opt_get :: "jsval \<Rightarrow> string \<Rightarrow> jsval" where
  "opt_get x p = (if nullish x then JUndefined else property x p)"

text \<open>\<^verbatim>\<open>p in x\<close>: a TypeError unless \<open>x\<close> is an object.\<close>

fun js_in :: "string \<Rightarrow> jsval \<Rightarrow> bool promise" where
  "js_in p (JObj ps) = Inr (map_of ps p \<noteq> None)"
| "js_in p v = Inl (TypeError ''Cannot use in operator to search for a key in a non-object'')"

text \<open>\<^verbatim>\<open>String.prototype.includes\<close>: \<open>s\<close> occurs in \<open>t\<close> as a contiguous substring.\<close>

primrec str_includes :: "string \<Rightarrow> string \<Rightarrow> bool" where
  "str_includes [] s = (s = [])"
| "str_includes (c # cs) s = (prefix s (c # cs) \<or> str_includes cs s)"

text \<open>\<^verbatim>\<open>m?.includes(s)\<close>, reduced to its truthiness: \<^verbatim>\<open>undefined\<close> (falsy) on a nullish
  \<open>m\<close>, the substring test on a string, and a TypeError (\<^verbatim>\<open>m.includes is not a
  function\<close>) on every other value of the model.\<close>

fun opt_includes :: "jsval \<Rightarrow> string \<Rightarrow> bool promise" where
  "opt_includes JUndefined s = Inr False"
| "opt_includes JNull s = Inr False"
| "opt_includes (JStr t) s = Inr (str_includes t s)"
| "opt_includes v s = Inl (TypeError ''includes is not a function'')"

text \<open>The short-circuit operators \<^verbatim>\<open>||\<close> and \<^verbatim>\<open>&&\<close> on conditions that may throw: the
  right operand is evaluated, and may throw, only if the left one does not decide.\<close>

definition lor :: "bool promise \<Rightarrow> bool promise \<Rightarrow> bool promise" where
  "lor a b = (case a of Inl exn \<Rightarrow> Inl exn | Inr True \<Rightarrow> Inr True | Inr False \<Rightarrow> b)"

definition land :: "bool promise \<Rightarrow> bool promise \<Rightarrow> bool promise" where
  "land a b = (case a of Inl exn \<Rightarrow> Inl exn | Inr False \<Rightarrow> Inr False | Inr True \<Rightarrow> b)"

text \<open>\<^verbatim>\<open>a || b\<close> on values.\<close>

definition or_val :: "jsval \<Rightarrow> jsval \<Rightarrow> jsval" where
  "or_val a b = (if truthy a then a else b)"

section \<open>Constants of the module\<close>

definition DEFAULT_MAX_RETRIES :: nat where
  "DEFAULT_MAX_RETRIES = 2"

definition RETRY_DELAY :: nat where
  "RETRY_DELAY = 1000"

definition DEFAULT_TTL :: nat where
  "DEFAULT_TTL = 1000 * 60 * 30"

definition CACHE_MAX :: nat where
  "CACHE_MAX = 1000"

section \<open>The cache\<close>

text \<open>
  Modelled from the spec: the class \<^verbatim>\<open>LRUCache\<close> of the package \<^verbatim>\<open>lru-cache\<close>, which
  the module instantiates with \<^verbatim>\<open>max: 1000\<close> and \<^verbatim>\<open>ttl: DEFAULT_TTL\<close> and whose code is
  not part of the repository.  Following section 4.1 of the specification: a store
  bounded by a maximum entry count that evicts the least recently used entry, where
  each entry lives for the time-to-live measured from its insertion, \<^verbatim>\<open>get\<close> on an
  expired entry behaves as absent and removes it, and \<^verbatim>\<open>get\<close> counts as a use.

  The list is ordered from the most to the least recently used key; an entry is the
  stored value with its insertion time in milliseconds.
\<close>

type_synonym cache = "(string \<times> jsval \<times> nat) list"

definition cache_delete :: "string \<Rightarrow> cache \<Rightarrow> cache" where
  "cache_delete k c = filter (\<lambda>e. fst e \<noteq> k) c"

definition cache_get :: "nat \<Rightarrow> string \<Rightarrow> cache \<Rightarrow> jsval \<times> cache" where
  "cache_get now k c =
     (case map_of c k of
        None \<Rightarrow> (JUndefined, c)
      | Some (v, t) \<Rightarrow>
          if t + DEFAULT_TTL \<le> now then (JUndefined, cache_delete k c)
          else (v, (k, v, t) # cache_delete k c))"

definition cache_set :: "nat \<Rightarrow> string \<Rightarrow> jsval \<Rightarrow> cache \<Rightarrow> cache" where
  "cache_set now k v c = take CACHE_MAX ((k, v, now) # cache_delete k c)"

section \<open>The state of the hook and of its environment\<close>

text \<open>\<^verbatim>\<open>interface FetchStatus\<close>.  The object spread in \<^verbatim>\<open>updateStatus\<close> builds entries
  field by field, so each field may be absent (\<open>None\<close>).\<close>

record FetchStatus =
  loading :: "bool option"
  error :: "jsval option"
  lastUpdated :: "nat option"

text \<open>\<^verbatim>\<open>Partial<FetchStatus>\<close> as the three calls of \<^verbatim>\<open>updateStatus\<close> use it: \<open>None\<close> is a
  key the literal does not mention.\<close>

record StatusUpdates =
  set_loading :: "bool option"
  set_error :: "jsval option"

text \<open>
  Everything the hook reads and writes:
  \<^item> \<open>clock\<close>: the time in milliseconds (\<^verbatim>\<open>Date.now()\<close>, and the cache's clock);
  \<^item> \<open>cache\<close>: the module-level \<^verbatim>\<open>cache\<close>;
  \<^item> \<open>status\<close>: the React state \<^verbatim>\<open>status\<close>.  A functional update passed to
    \<^verbatim>\<open>setStatus\<close> is applied at once, in the order of the calls, and the readers are
    evaluated against the state so reached (React runs the queued updaters, in this
    order, no later than the next render);
  \<^item> \<open>calls\<close>: the log of the invocations of \<^verbatim>\<open>pinata.gateways.get\<close>, oldest first.
\<close>

record world =
  clock :: nat
  cache :: cache
  status :: "string \<rightharpoonup> FetchStatus"
  calls :: "string list"

text \<open>
  The network collaborator \<^verbatim>\<open>pinata.gateways.get\<close>, which is not part of the
  repository, is a parameter: its \<open>n\<close>-th invocation (counting from 0 over the whole
  run), made for a CID, settles after some milliseconds either fulfilled with a payload
  or rejected with a value.  An exception the call throws before it returns a promise is
  caught by the same \<^verbatim>\<open>try\<close> and is a rejection here.  A call that never settles is outside
  the model.
\<close>

datatype outcome = Resolve jsval | Reject jsval

type_synonym network = "nat \<Rightarrow> string \<Rightarrow> nat \<times> outcome"

section \<open>updateStatus\<close>

definition updateStatus :: "string \<Rightarrow> StatusUpdates \<Rightarrow> world \<Rightarrow> world" where
  "updateStatus CID updates w =
     w\<lparr>status := (status w)(CID \<mapsto>
        \<lparr>loading = (case set_loading updates of
                      Some b \<Rightarrow> Some b
                    | None \<Rightarrow> (case status w CID of Some prev \<Rightarrow> loading prev | None \<Rightarrow> None)),
         error = (case set_error updates of
                    Some e \<Rightarrow> Some e
                  | None \<Rightarrow> (case status w CID of Some prev \<Rightarrow> error prev | None \<Rightarrow> None)),
         lastUpdated = Some (clock w)\<rparr>)\<rparr>"

section \<open>fetchWithRetry\<close>

text \<open>\<^verbatim>\<open>normalizedError?.message?.includes(s)\<close>\<close>

definition message_includes :: "jsval \<Rightarrow> string \<Rightarrow> bool promise" where
  "message_includes e s = opt_includes (opt_get e ''message'') s"

text \<open>The condition \<^verbatim>\<open>isAuthError\<close> (lines 74 to 83), reduced to its truthiness.\<close>

definition isAuthError :: "jsval \<Rightarrow> bool promise" where
  "isAuthError e =
     lor (message_includes e ''403'')
    (lor (message_includes e ''Authentication Failed'')
    (lor (land (Inr (js_typeof e = ''object''))
         (land (js_in ''response'' e)
               (Inr (opt_get (opt_get e ''response'') ''status'' = JNum 403))))
    (lor (Inr (opt_get e ''name'' = JStr ''AuthenticationError''))
         (land (Inr (js_typeof e = ''object''))
         (land (js_in ''code'' e)
               (Inr (opt_get e ''code'' = JStr ''ERR_ID:00006'')))))))"

text \<open>The argument \<^verbatim>\<open>normalizedError.message\<close> of \<^verbatim>\<open>console.warn\<close> and \<^verbatim>\<open>console.error\<close>
  is evaluated before \<^verbatim>\<open>return null\<close>; the output itself is not modelled.\<close>

definition log_message_then_null :: "jsval \<Rightarrow> jsval promise" where
  "log_message_then_null e =
     (case get e ''message'' of Inl exn \<Rightarrow> Inl exn | Inr m \<Rightarrow> Inr JNull)"

text \<open>One invocation of the collaborator: it is logged and the clock moves to the time
  the call settles.\<close>

definition invoke :: "network \<Rightarrow> string \<Rightarrow> world \<Rightarrow> outcome \<times> world" where
  "invoke net CID w =
     (snd (net (length (calls w)) CID),
      w\<lparr>calls := calls w @ [CID], clock := clock w + fst (net (length (calls w)) CID)\<rparr>)"

definition sleep :: "nat \<Rightarrow> world \<Rightarrow> world" where
  "sleep ms w = w\<lparr>clock := clock w + ms\<rparr>"

function fetchWithRetry :: "network \<Rightarrow> string \<Rightarrow> nat \<Rightarrow> world \<Rightarrow> jsval promise \<times> world" where
  "fetchWithRetry net CID retryCount w =
     (case invoke net CID w of
        (Resolve response, w1) \<Rightarrow> (Inr response, w1)
      | (Reject e, w1) \<Rightarrow>
          (case isAuthError e of
             Inl exn \<Rightarrow> (Inl exn, w1)
           | Inr True \<Rightarrow> (log_message_then_null e, w1)
           | Inr False \<Rightarrow>
               if retryCount < DEFAULT_MAX_RETRIES
               then fetchWithRetry net CID (retryCount + 1)
                      (sleep (RETRY_DELAY * (retryCount + 1)) w1)
               else (log_message_then_null e, w1)))"
  by pat_completeness auto
termination
  by (relation "measure (\<lambda>(net, CID, retryCount, w). DEFAULT_MAX_RETRIES - retryCount)") auto

section \<open>fetchCIDContent and the readers\<close>

text \<open>The \<^verbatim>\<open>catch\<close> block of \<^verbatim>\<open>fetchCIDContent\<close> (lines 129 to 135): reading
  \<^verbatim>\<open>error.message\<close> is itself outside any \<^verbatim>\<open>try\<close>.\<close>

definition on_rejection :: "string \<Rightarrow> jsval \<Rightarrow> world \<Rightarrow> jsval promise \<times> world" where
  "on_rejection CID exn w =
     (case get exn ''message'' of
        Inl exn' \<Rightarrow> (Inl exn', w)
      | Inr m \<Rightarrow>
          (Inr JNull,
           updateStatus CID
             \<lparr>set_loading = Some False, set_error = Some (or_val m (JStr ''Unknown error''))\<rparr> w))"

text \<open>Lines 125 to 128: the result of \<^verbatim>\<open>fetchWithRetry\<close> is cached and the status
  updated.\<close>

definition on_data :: "string \<Rightarrow> jsval \<Rightarrow> world \<Rightarrow> jsval promise \<times> world" where
  "on_data CID data w =
     (Inr data,
      updateStatus CID \<lparr>set_loading = Some False, set_error = None\<rparr>
        (w\<lparr>cache := cache_set (clock w) CID data (cache w)\<rparr>))"

text \<open>\<^verbatim>\<open>const cachedResponse = cache.get(CID)\<close>\<close>

definition lookup :: "string \<Rightarrow> world \<Rightarrow> jsval \<times> world" where
  "lookup CID w =
     (fst (cache_get (clock w) CID (cache w)),
      w\<lparr>cache := snd (cache_get (clock w) CID (cache w))\<rparr>)"

text \<open>The parameter is typed \<^verbatim>\<open>CID: string\<close>, and the only falsy string is the empty
  one.  The \<^verbatim>\<open>try\<close> block is the call of \<^verbatim>\<open>fetchWithRetry\<close> followed by \<open>on_data\<close>, in which
  nothing raises an exception; a rejection of \<^verbatim>\<open>fetchWithRetry\<close> enters the \<^verbatim>\<open>catch\<close> block,
  \<open>on_rejection\<close>.\<close>

definition fetchCIDContent :: "network \<Rightarrow> string \<Rightarrow> world \<Rightarrow> jsval promise \<times> world" where
  "fetchCIDContent net CID w =
     (if CID = [] then (Inr JNull, w)
      else
        (case lookup CID (updateStatus CID \<lparr>set_loading = Some True, set_error = Some JNull\<rparr> w) of
           (cachedResponse, w1) \<Rightarrow>
             if truthy cachedResponse then (Inr cachedResponse, w1)
             else
               (case fetchWithRetry net CID 0 w1 of
                  (Inr data, w2) \<Rightarrow> on_data CID data w2
                | (Inl exn, w2) \<Rightarrow> on_rejection CID exn w2)))"

text \<open>\<^verbatim>\<open>status[CID]?.loading ?? false\<close>\<close>

definition isLoading :: "string \<Rightarrow> world \<Rightarrow> bool" where
  "isLoading CID w =
     (case status w CID of
        None \<Rightarrow> False
      | Some s \<Rightarrow> (case loading s of None \<Rightarrow> False | Some b \<Rightarrow> b))"

text \<open>\<^verbatim>\<open>status[CID]?.error ?? null\<close>\<close>

definition getError :: "string \<Rightarrow> world \<Rightarrow> jsval" where
  "getError CID w =
     (case status w CID of
        None \<Rightarrow> JNull
      | Some s \<Rightarrow> (case error s of None \<Rightarrow> JNull | Some e \<Rightarrow> if nullish e then JNull else e))"

text \<open>\<^verbatim>\<open>status[CID]?.lastUpdated\<close>, with \<open>None\<close> for \<^verbatim>\<open>undefined\<close>.\<close>

definition getLastUpdated :: "string \<Rightarrow> world \<Rightarrow> nat option" where
  "getLastUpdated CID w =
     (case status w CID of None \<Rightarrow> None | Some s \<Rightarrow> lastUpdated s)"

text \<open>The state of a freshly mounted hook in a fresh module: \<^verbatim>\<open>useState({})\<close> and an
  empty cache.\<close>

definition initial :: "nat \<Rightarrow> world" where
  "initial now = \<lparr>clock = now, cache = [], status = Map.empty, calls = []\<rparr>"

section \<open>fetchMultipleCIDs\<close>

text \<open>
  \<^verbatim>\<open>Promise.all(CIDs.map((cid) => fetchCIDContent(cid)))\<close> starts one call of
  \<^verbatim>\<open>fetchCIDContent\<close> per element, in input order, and the calls then run interleaved on
  one thread: a call gives up control at \<^verbatim>\<open>await pinata.gateways.get(CID)\<close> and at the
  \<^verbatim>\<open>await\<close> of the retry delay, and nowhere else.  A call in flight is a task:
  \<^item> \<open>Settled p\<close>: the promise \<^verbatim>\<open>fetchCIDContent\<close> returned has settled with \<open>p\<close>;
  \<^item> \<open>AwaitingResponse CID retryCount due out\<close>: the call is suspended in
    \<^verbatim>\<open>fetchWithRetry(CID, retryCount)\<close> at the collaborator's promise, which settles at
    time \<open>due\<close> with \<open>out\<close>;
  \<^item> \<open>AwaitingTimer CID retryCount due\<close>: the call is suspended at the delay before
    \<^verbatim>\<open>fetchWithRetry(CID, retryCount)\<close>, which ends at time \<open>due\<close>.
  The code between two suspension points runs without interruption and takes no time.
  The responses arrive in the order of the times at which they are due, so every order
  of arrival is that of some choice of latencies by the collaborator.
\<close>

datatype task =
    Settled "jsval promise"
  | AwaitingResponse string nat nat outcome
  | AwaitingTimer string nat nat

text \<open>\<^verbatim>\<open>fetchWithRetry(CID, retryCount)\<close> up to its \<^verbatim>\<open>await\<close>: the collaborator is invoked.\<close>

definition request :: "network \<Rightarrow> string \<Rightarrow> nat \<Rightarrow> world \<Rightarrow> task \<times> world" where
  "request net CID retryCount w =
     (AwaitingResponse CID retryCount
        (clock w + fst (net (length (calls w)) CID)) (snd (net (length (calls w)) CID)),
      w\<lparr>calls := calls w @ [CID]\<rparr>)"


text \<open>\<^verbatim>\<open>fetchCIDContent\<close> from the point where \<^verbatim>\<open>fetchWithRetry\<close> has settled with \<open>r\<close>
  (lines 125 to 135).\<close>

definition settle :: "string \<Rightarrow> jsval promise \<Rightarrow> world \<Rightarrow> task \<times> world" where
  "settle CID r w =
     (case r of
        Inr data \<Rightarrow> (Settled (fst (on_data CID data w)), snd (on_data CID data w))
      | Inl exn \<Rightarrow> (Settled (fst (on_rejection CID exn w)), snd (on_rejection CID exn w)))"







text \<open>The number of times a call can still be continued: the measure of the event loop.\<close>

fun steps_left :: "task \<Rightarrow> nat" where
  "steps_left (Settled p) = 0"
| "steps_left (AwaitingResponse CID retryCount due out) = 2 * (DEFAULT_MAX_RETRIES - retryCount) + 1"
| "steps_left (AwaitingTimer CID retryCount due) = 2 * (DEFAULT_MAX_RETRIES - retryCount) + 2"







lemma steps_left_settle [simp]: "steps_left (fst (settle CID r w)) = 0"
  by (simp add: settle_def split: sum.splits)







section \<open>Vocabulary of the statements\<close>

fun is_string :: "jsval \<Rightarrow> bool" where
  "is_string (JStr s) = True"
| "is_string v = False"

text \<open>
  The rejection values on which the \<^verbatim>\<open>catch\<close> block of \<^verbatim>\<open>fetchWithRetry\<close> runs without
  raising an exception of its own: the value is neither \<^verbatim>\<open>null\<close> nor \<^verbatim>\<open>undefined\<close> and its
  \<^verbatim>\<open>message\<close>, if it has one, is a string.  Every value of the type the cast in lines 64
  to 71 declares (\<^verbatim>\<open>Error\<close>, or an object with \<^verbatim>\<open>message?: string\<close>) is of this kind.
\<close>

definition well_formed_error :: "jsval \<Rightarrow> bool" where
  "well_formed_error e =
     (\<not> nullish e \<and> (nullish (property e ''message'') \<or> is_string (property e ''message'')))"

text \<open>The classification in the words of the specification (section 4.2): the message
  contains "403", the message contains "Authentication Failed", the nested
  \<^verbatim>\<open>response.status\<close> equals 403, the name equals "AuthenticationError", or the code equals
  the sentinel.\<close>

definition message_contains :: "jsval \<Rightarrow> string \<Rightarrow> bool" where
  "message_contains e s =
     (case property e ''message'' of JStr t \<Rightarrow> str_includes t s | _ \<Rightarrow> False)"

definition spec_auth_error :: "jsval \<Rightarrow> bool" where
  "spec_auth_error e =
     (message_contains e ''403''
      \<or> message_contains e ''Authentication Failed''
      \<or> property (property e ''response'') ''status'' = JNum 403
      \<or> property e ''name'' = JStr ''AuthenticationError''
      \<or> property e ''code'' = JStr ''ERR_ID:00006'')"

text \<open>An attempt that fails with an error that is not an authorization failure: the call
  is rejected with a reason (a value other than \<^verbatim>\<open>undefined\<close> and \<^verbatim>\<open>null\<close>) for which the
  condition \<^verbatim>\<open>isAuthError\<close> of the code is false.\<close>

definition transient_failure :: "outcome \<Rightarrow> bool" where
  "transient_failure out =
     (case out of
        Reject e \<Rightarrow> \<not> nullish e \<and> isAuthError e = Inr False
      | Resolve v \<Rightarrow> False)"

text \<open>The exceptions the model raises are TypeErrors with a non-empty message.\<close>

fun is_TypeError :: "jsval \<Rightarrow> bool" where
  "is_TypeError (JObj [(n, JStr t), (m, JStr msg)]) =
     (n = ''name'' \<and> t = ''TypeError'' \<and> m = ''message'' \<and> msg \<noteq> [])"
| "is_TypeError v = False"

text \<open>The state in which \<^verbatim>\<open>fetchCIDContent\<close> leaves the synchronous prefix of a call for a
  non-empty CID: the status is marked as loading and the cache has been consulted.\<close>

definition started :: "string \<Rightarrow> world \<Rightarrow> world" where
  "started CID w =
     snd (lookup CID (updateStatus CID \<lparr>set_loading = Some True, set_error = Some JNull\<rparr> w))"

text \<open>Where a result of \<^verbatim>\<open>fetchCIDContent\<close> for a CID can come from: it is \<^verbatim>\<open>null\<close>, a
  payload with which the collaborator resolved a call for this CID, or a truthy value
  the cache held under this CID.\<close>

definition provenance :: "network \<Rightarrow> cache \<Rightarrow> string \<Rightarrow> jsval \<Rightarrow> bool" where
  "provenance net c CID v \<longleftrightarrow>
     v = JNull \<or> (\<exists>n. snd (net n CID) = Resolve v)
     \<or> (truthy v \<and> (\<exists>t. map_of c CID = Some (v, t)))"



text \<open>Sample collaborators and errors for the concrete instances below.\<close>

definition rejecting :: "nat \<Rightarrow> jsval \<Rightarrow> network" where
  "rejecting ms e = (\<lambda>n CID. (ms, Reject e))"

definition resolving :: "nat \<Rightarrow> jsval \<Rightarrow> network" where
  "resolving ms v = (\<lambda>n CID. (ms, Resolve v))"

definition failing_twice :: "nat \<Rightarrow> jsval \<Rightarrow> jsval \<Rightarrow> network" where
  "failing_twice ms e v = (\<lambda>n CID. (ms, if n < 2 then Reject e else Resolve v))"

definition Error :: "string \<Rightarrow> string \<Rightarrow> jsval" where
  "Error name message = JObj [(''name'', JStr name), (''message'', JStr message)]"

definition network_down :: network where
  "network_down = rejecting 40 (Error ''Error'' ''Network Error'')"


section \<open>Basic facts\<close>

declare fetchWithRetry.simps [simp del]

lemma str_includes_sublist: "str_includes t s \<longleftrightarrow> sublist s t"
  by (induction t) (auto simp: sublist_Cons_right)

lemma opt_get_property: "opt_get x p = property x p"
  by (cases x) (simp_all add: opt_get_def)

lemma lor_simps [simp]:
  "lor (Inl x) b = Inl x"
  "lor (Inr a) b = (if a then Inr True else b)"
  by (auto simp: lor_def)

lemma land_simps [simp]:
  "land (Inl x) b = Inl x"
  "land (Inr a) b = (if a then b else Inr False)"
  by (auto simp: land_def)

subsection \<open>The classification on well-formed errors\<close>

lemma message_includes_well_formed:
  "well_formed_error e \<Longrightarrow> message_includes e s = Inr (message_contains e s)"
  by (cases "property e ''message''")
     (auto simp: well_formed_error_def message_includes_def message_contains_def opt_get_property)

lemma isAuthError_well_formed:
  assumes "well_formed_error e"
  shows "isAuthError e = Inr (spec_auth_error e)"
proof (cases e)
  case (JObj ps)
  then show ?thesis
    using assms
    by (auto simp: isAuthError_def spec_auth_error_def message_includes_well_formed
        opt_get_property split: option.splits)
qed (use assms in \<open>auto simp: isAuthError_def spec_auth_error_def message_includes_well_formed
        opt_get_property well_formed_error_def message_contains_def\<close>)

lemma log_message_well_formed:
  "well_formed_error e \<Longrightarrow> log_message_then_null e = Inr JNull"
  by (simp add: log_message_then_null_def get_def well_formed_error_def)

text \<open>Conversely, the classification comes to a result only on \<^verbatim>\<open>undefined\<close>, where it is
  false, and on well-formed errors.\<close>

lemma isAuthError_nullish:
  "isAuthError JUndefined = Inr False"
  "\<exists>exn. isAuthError JNull = Inl exn"
  by (simp_all add: isAuthError_def message_includes_def opt_get_def)

lemma isAuthError_decides:
  assumes "isAuthError e = Inr b" and "\<not> nullish e"
  shows "well_formed_error e"
  using assms
  by (cases "property e ''message''")
     (auto simp: isAuthError_def message_includes_def opt_get_property well_formed_error_def)

lemma isAuthError_True_iff:
  "isAuthError e = Inr True \<longleftrightarrow> well_formed_error e \<and> spec_auth_error e"
proof
  assume t: "isAuthError e = Inr True"
  then have "\<not> nullish e"
    using isAuthError_nullish by (cases e) auto
  with t have "well_formed_error e" by (rule isAuthError_decides)
  with t show "well_formed_error e \<and> spec_auth_error e"
    by (simp add: isAuthError_well_formed)
next
  assume "well_formed_error e \<and> spec_auth_error e"
  then show "isAuthError e = Inr True"
    by (simp add: isAuthError_well_formed)
qed

lemma transient_failure_iff:
  "transient_failure (Reject e) \<longleftrightarrow> well_formed_error e \<and> \<not> spec_auth_error e"
proof
  assume "transient_failure (Reject e)"
  then have f: "isAuthError e = Inr False" and n: "\<not> nullish e"
    by (simp_all add: transient_failure_def)
  from f n have "well_formed_error e" by (rule isAuthError_decides)
  with f show "well_formed_error e \<and> \<not> spec_auth_error e"
    by (simp add: isAuthError_well_formed)
next
  assume "well_formed_error e \<and> \<not> spec_auth_error e"
  then show "transient_failure (Reject e)"
    by (simp add: transient_failure_def isAuthError_well_formed well_formed_error_def)
qed

lemma transient_failure_cases:
  "transient_failure out \<Longrightarrow>
     \<exists>e. out = Reject e \<and> well_formed_error e \<and> \<not> spec_auth_error e"
  using transient_failure_iff by (cases out) (auto simp: transient_failure_def)

lemma transient_network_error: "transient_failure (Reject (Error ''Error'' ''Network Error''))"
  by (simp add: transient_failure_iff well_formed_error_def spec_auth_error_def
        message_contains_def Error_def)

lemma invoke_Reject:
  "snd (net (length (calls w)) CID) = Reject e \<Longrightarrow>
   invoke net CID w =
     (Reject e,
      w\<lparr>calls := calls w @ [CID], clock := clock w + fst (net (length (calls w)) CID)\<rparr>)"
  by (simp add: invoke_def)

lemma invoke_Resolve:
  "snd (net (length (calls w)) CID) = Resolve v \<Longrightarrow>
   invoke net CID w =
     (Resolve v,
      w\<lparr>calls := calls w @ [CID], clock := clock w + fst (net (length (calls w)) CID)\<rparr>)"
  by (simp add: invoke_def)

section \<open>Authorization failures are not retried\<close>

text \<open>
  C1, as the code has it.  Whatever the CID, the retry count and the state, if the
  collaborator rejects the call with a well-formed error (a value other than \<^verbatim>\<open>null\<close> and
  \<^verbatim>\<open>undefined\<close> whose message is absent or a string, the shape the cast in lines 64 to 71
  declares) that meets one of the five conditions of the specification, namely its
  message contains "403" or "Authentication Failed", its \<^verbatim>\<open>response.status\<close> is 403, its
  name is "AuthenticationError" or its code is "ERR_ID:00006", then \<^verbatim>\<open>fetchWithRetry\<close> is
  fulfilled with \<^verbatim>\<open>null\<close> after exactly this one invocation: the log of calls grows by
  the single entry for the CID.  These are exactly the values for which the condition
  \<^verbatim>\<open>isAuthError\<close> of the code is true.
\<close>

theorem fetchWithRetry_auth_error_no_retry:
  "(isAuthError e = Inr True \<longleftrightarrow> well_formed_error e \<and> spec_auth_error e)
   \<and> (snd (net (length (calls w)) CID) = Reject e \<and> well_formed_error e \<and> spec_auth_error e
        \<longrightarrow>
        fetchWithRetry net CID retryCount w =
          (Inr JNull,
           w\<lparr>calls := calls w @ [CID],
              clock := clock w + fst (net (length (calls w)) CID)\<rparr>))"
proof (intro conjI impI)
  show "isAuthError e = Inr True \<longleftrightarrow> well_formed_error e \<and> spec_auth_error e"
    by (rule isAuthError_True_iff)
next
  assume a: "snd (net (length (calls w)) CID) = Reject e \<and> well_formed_error e
               \<and> spec_auth_error e"
  then have au: "isAuthError e = Inr True"
    by (simp add: isAuthError_True_iff)
  from a have "log_message_then_null e = Inr JNull"
    by (simp add: log_message_well_formed)
  with a au show "fetchWithRetry net CID retryCount w =
          (Inr JNull,
           w\<lparr>calls := calls w @ [CID],
              clock := clock w + fst (net (length (calls w)) CID)\<rparr>)"
    by (subst fetchWithRetry.simps) (simp add: invoke_Reject)
qed

text \<open>Stated for every error that meets one of the five conditions, the property fails:
  when the collaborator rejects with the object
  \<^verbatim>\<open>{ name: "AuthenticationError", message: 403 }\<close>, whose message is a number, the first
  test \<^verbatim>\<open>normalizedError?.message?.includes("403")\<close> raises a TypeError before the name is
  compared, and \<^verbatim>\<open>fetchWithRetry\<close> is rejected with it after its one invocation.\<close>

theorem fetchWithRetry_auth_name_counterexample:
  "spec_auth_error (JObj [(''name'', JStr ''AuthenticationError''), (''message'', JNum 403)])
   \<and> fst (fetchWithRetry
          (rejecting 40 (JObj [(''name'', JStr ''AuthenticationError''), (''message'', JNum 403)]))
          ''QmA'' 0 (initial 0))
       = Inl (TypeError ''includes is not a function'')
   \<and> calls (snd (fetchWithRetry
          (rejecting 40 (JObj [(''name'', JStr ''AuthenticationError''), (''message'', JNum 403)]))
          ''QmA'' 0 (initial 0)))
       = [''QmA'']"
  by (subst (1 2) fetchWithRetry.simps)
     (simp add: spec_auth_error_def message_contains_def rejecting_def initial_def invoke_def
        isAuthError_def message_includes_def opt_get_def)

theorem fetchWithRetry_auth_error_no_retry_witness:
  "snd (rejecting 40 (Error ''Error'' ''HTTP 403 Forbidden'') (length (calls (initial 0))) ''QmA'')
     = Reject (Error ''Error'' ''HTTP 403 Forbidden'')
   \<and> isAuthError (Error ''Error'' ''HTTP 403 Forbidden'') = Inr True
   \<and> well_formed_error (Error ''Error'' ''HTTP 403 Forbidden'')
   \<and> spec_auth_error (Error ''Error'' ''HTTP 403 Forbidden'')
   \<and> fst (fetchWithRetry (rejecting 40 (Error ''Error'' ''HTTP 403 Forbidden'')) ''QmA'' 0 (initial 0))
       = Inr JNull
   \<and> calls (snd (fetchWithRetry (rejecting 40 (Error ''Error'' ''HTTP 403 Forbidden'')) ''QmA'' 0
        (initial 0))) = [''QmA'']"
proof -
  have r: "snd (rejecting 40 (Error ''Error'' ''HTTP 403 Forbidden'') (length (calls (initial 0))) ''QmA'')
     = Reject (Error ''Error'' ''HTTP 403 Forbidden'')"
    by (simp add: rejecting_def)
  have au: "isAuthError (Error ''Error'' ''HTTP 403 Forbidden'') = Inr True"
    by (simp add: isAuthError_def message_includes_def opt_get_def Error_def)
  have wf: "well_formed_error (Error ''Error'' ''HTTP 403 Forbidden'')"
    by (simp add: well_formed_error_def Error_def)
  have sa: "spec_auth_error (Error ''Error'' ''HTTP 403 Forbidden'')"
    by (simp add: spec_auth_error_def message_contains_def Error_def)
  show ?thesis
    using r au wf sa
      fetchWithRetry_auth_error_no_retry
        [where net = "rejecting 40 (Error ''Error'' ''HTTP 403 Forbidden'')" and w = "initial 0"
           and CID = "''QmA''" and e = "Error ''Error'' ''HTTP 403 Forbidden''" and retryCount = 0]
    by (simp add: initial_def)
qed

section \<open>Retrying transient failures\<close>

lemma calls_sleep [simp]: "calls (sleep ms w) = calls w"
  by (simp add: sleep_def)

lemma fetchWithRetry_Resolve:
  "snd (net (length (calls w)) CID) = Resolve v \<Longrightarrow>
   fetchWithRetry net CID rc w =
     (Inr v, w\<lparr>calls := calls w @ [CID], clock := clock w + fst (net (length (calls w)) CID)\<rparr>)"
  by (subst fetchWithRetry.simps) (simp add: invoke_Resolve)

lemma fetchWithRetry_transient:
  assumes "transient_failure (snd (net (length (calls w)) CID))"
  shows "fetchWithRetry net CID rc w =
     (if rc < DEFAULT_MAX_RETRIES
      then fetchWithRetry net CID (rc + 1)
             (sleep (RETRY_DELAY * (rc + 1))
                (w\<lparr>calls := calls w @ [CID], clock := clock w + fst (net (length (calls w)) CID)\<rparr>))
      else (Inr JNull, w\<lparr>calls := calls w @ [CID], clock := clock w + fst (net (length (calls w)) CID)\<rparr>))"
proof -
  from transient_failure_cases [OF assms]
  obtain e where e: "snd (net (length (calls w)) CID) = Reject e"
    "well_formed_error e" "\<not> spec_auth_error e"
    by blast
  show ?thesis
    by (subst fetchWithRetry.simps)
       (simp add: invoke_Reject [where net = net and w = w and CID = CID, OF e(1)] isAuthError_well_formed e log_message_well_formed)
qed

lemma retry_until_success:
  assumes "rc + k \<le> DEFAULT_MAX_RETRIES"
    and "\<forall>i<k. transient_failure (snd (net (length (calls w) + i) CID))"
    and "snd (net (length (calls w) + k) CID) = Resolve v"
  shows "fst (fetchWithRetry net CID rc w) = Inr v
       \<and> calls (snd (fetchWithRetry net CID rc w)) = calls w @ replicate (Suc k) CID"
  using assms
proof (induction k arbitrary: rc w)
  case 0
  then show ?case by (simp add: fetchWithRetry_Resolve)
next
  case (Suc k)
  let ?w' = "sleep (RETRY_DELAY * (rc + 1))
                (w\<lparr>calls := calls w @ [CID], clock := clock w + fst (net (length (calls w)) CID)\<rparr>)"
  from Suc.prems(2) have first: "transient_failure (snd (net (length (calls w)) CID))"
    by (metis add.right_neutral zero_less_Suc)
  have rc: "rc < DEFAULT_MAX_RETRIES" using Suc.prems(1) by simp
  have step: "fetchWithRetry net CID rc w = fetchWithRetry net CID (rc + 1) ?w'"
    using fetchWithRetry_transient [where net = net and w = w and CID = CID and rc = rc, OF first] rc by simp
  have len: "length (calls ?w') = Suc (length (calls w))" by simp
  have "fst (fetchWithRetry net CID (rc + 1) ?w') = Inr v
       \<and> calls (snd (fetchWithRetry net CID (rc + 1) ?w')) = calls ?w' @ replicate (Suc k) CID"
  proof (rule Suc.IH)
    show "rc + 1 + k \<le> DEFAULT_MAX_RETRIES" using Suc.prems(1) by simp
    show "\<forall>i<k. transient_failure (snd (net (length (calls ?w') + i) CID))"
    proof (intro allI impI)
      fix i assume "i < k"
      then have "Suc i < Suc k" by simp
      with Suc.prems(2) have "transient_failure (snd (net (length (calls w) + Suc i) CID))"
        by blast
      then show "transient_failure (snd (net (length (calls ?w') + i) CID))"
        by (simp add: len)
    qed
    show "snd (net (length (calls ?w') + k) CID) = Resolve v"
      using Suc.prems(3) by (simp add: len)
  qed
  then show ?case
    by (simp add: step)
qed

lemma retry_until_exhausted:
  assumes "rc \<le> DEFAULT_MAX_RETRIES"
    and "\<forall>i\<le>DEFAULT_MAX_RETRIES - rc. transient_failure (snd (net (length (calls w) + i) CID))"
  shows "fst (fetchWithRetry net CID rc w) = Inr JNull
       \<and> calls (snd (fetchWithRetry net CID rc w))
           = calls w @ replicate (Suc (DEFAULT_MAX_RETRIES - rc)) CID"
  using assms
proof (induction "DEFAULT_MAX_RETRIES - rc" arbitrary: rc w)
  case 0
  then have rc: "\<not> rc < DEFAULT_MAX_RETRIES" by simp
  from "0.prems"(2) have first: "transient_failure (snd (net (length (calls w)) CID))"
    by (metis add.right_neutral le0)
  show ?case
    using fetchWithRetry_transient [where net = net and w = w and CID = CID and rc = rc, OF first] rc "0.hyps" by simp
next
  case (Suc n)
  let ?w' = "sleep (RETRY_DELAY * (rc + 1))
                (w\<lparr>calls := calls w @ [CID], clock := clock w + fst (net (length (calls w)) CID)\<rparr>)"
  from Suc.prems(2) have first: "transient_failure (snd (net (length (calls w)) CID))"
    by (metis add.right_neutral le0)
  have rc: "rc < DEFAULT_MAX_RETRIES" using Suc.hyps(2) by simp
  have step: "fetchWithRetry net CID rc w = fetchWithRetry net CID (rc + 1) ?w'"
    using fetchWithRetry_transient [where net = net and w = w and CID = CID and rc = rc, OF first] rc by simp
  have len: "length (calls ?w') = Suc (length (calls w))" by simp
  have n: "n = DEFAULT_MAX_RETRIES - (rc + 1)" using Suc.hyps(2) by simp
  have "fst (fetchWithRetry net CID (rc + 1) ?w') = Inr JNull
       \<and> calls (snd (fetchWithRetry net CID (rc + 1) ?w'))
           = calls ?w' @ replicate (Suc (DEFAULT_MAX_RETRIES - (rc + 1))) CID"
  proof (rule Suc.hyps(1) [OF n])
    show "rc + 1 \<le> DEFAULT_MAX_RETRIES" using rc by simp
    show "\<forall>i\<le>DEFAULT_MAX_RETRIES - (rc + 1).
            transient_failure (snd (net (length (calls ?w') + i) CID))"
    proof (intro allI impI)
      fix i assume "i \<le> DEFAULT_MAX_RETRIES - (rc + 1)"
      then have "Suc i \<le> DEFAULT_MAX_RETRIES - rc" using rc by simp
      with Suc.prems(2) have "transient_failure (snd (net (length (calls w) + Suc i) CID))"
        by blast
      then show "transient_failure (snd (net (length (calls ?w') + i) CID))"
        by (simp add: len)
    qed
  qed
  moreover have "DEFAULT_MAX_RETRIES - rc = Suc (DEFAULT_MAX_RETRIES - (rc + 1))"
    using rc by simp
  ultimately show ?case
    by (simp only: step) simp
qed

text \<open>
  C2, as the code has it.  An attempt fails transiently when the call is rejected with a
  well-formed error (a value other than \<^verbatim>\<open>null\<close> and \<^verbatim>\<open>undefined\<close> whose message is absent
  or a string) that meets none of the five conditions; these are the reasons other than
  \<^verbatim>\<open>undefined\<close> for which \<^verbatim>\<open>isAuthError\<close> is false.  \<^verbatim>\<open>fetchWithRetry\<close> invokes the
  collaborator until the first success or until \<^verbatim>\<open>DEFAULT_MAX_RETRIES + 1 = 3\<close> attempts
  have failed so.  If the first \<open>k \<le> 2\<close> attempts fail so and the next one succeeds, the
  result is the payload of that attempt after exactly \<open>k + 1\<close> invocations (three
  invocations when it fails twice and then succeeds); if three attempts in a row fail
  so, the result is \<^verbatim>\<open>null\<close> after exactly three invocations.
\<close>

theorem fetchWithRetry_retry_limit:
  "(transient_failure (Reject e) \<longleftrightarrow> well_formed_error e \<and> \<not> spec_auth_error e)
   \<and> (k \<le> DEFAULT_MAX_RETRIES
      \<and> (\<forall>i<k. transient_failure (snd (net (length (calls w) + i) CID)))
      \<and> snd (net (length (calls w) + k) CID) = Resolve v
     \<longrightarrow> fst (fetchWithRetry net CID 0 w) = Inr v
         \<and> calls (snd (fetchWithRetry net CID 0 w)) = calls w @ replicate (k + 1) CID)
   \<and> ((\<forall>i<3. transient_failure (snd (net (length (calls w) + i) CID)))
     \<longrightarrow> fst (fetchWithRetry net CID 0 w) = Inr JNull
         \<and> calls (snd (fetchWithRetry net CID 0 w)) = calls w @ [CID, CID, CID])"
proof (intro conjI impI)
  show "transient_failure (Reject e) \<longleftrightarrow> well_formed_error e \<and> \<not> spec_auth_error e"
    by (rule transient_failure_iff)
next
  assume a: "k \<le> DEFAULT_MAX_RETRIES
      \<and> (\<forall>i<k. transient_failure (snd (net (length (calls w) + i) CID)))
      \<and> snd (net (length (calls w) + k) CID) = Resolve v"
  then have *: "fst (fetchWithRetry net CID 0 w) = Inr v
       \<and> calls (snd (fetchWithRetry net CID 0 w)) = calls w @ replicate (Suc k) CID"
    by (intro retry_until_success) simp_all
  from * show "fst (fetchWithRetry net CID 0 w) = Inr v" by simp
  from * show "calls (snd (fetchWithRetry net CID 0 w)) = calls w @ replicate (k + 1) CID" by simp
next
  assume a: "\<forall>i<3. transient_failure (snd (net (length (calls w) + i) CID))"
  have *: "fst (fetchWithRetry net CID 0 w) = Inr JNull
       \<and> calls (snd (fetchWithRetry net CID 0 w))
           = calls w @ replicate (Suc (DEFAULT_MAX_RETRIES - 0)) CID"
  proof (rule retry_until_exhausted)
    show "0 \<le> DEFAULT_MAX_RETRIES" by simp
    show "\<forall>i\<le>DEFAULT_MAX_RETRIES - 0. transient_failure (snd (net (length (calls w) + i) CID))"
      using a by (simp add: DEFAULT_MAX_RETRIES_def)
  qed
  from * show "fst (fetchWithRetry net CID 0 w) = Inr JNull" by simp
  from * show "calls (snd (fetchWithRetry net CID 0 w)) = calls w @ [CID, CID, CID]"
    by (simp add: DEFAULT_MAX_RETRIES_def numeral_2_eq_2)
qed

theorem fetchWithRetry_retry_limit_witness:
  "2 \<le> DEFAULT_MAX_RETRIES
   \<and> transient_failure (snd (failing_twice 40 (Error ''Error'' ''Network Error'') (JStr ''payload'') 0 ''QmA''))
   \<and> transient_failure (snd (failing_twice 40 (Error ''Error'' ''Network Error'') (JStr ''payload'') 1 ''QmA''))
   \<and> snd (failing_twice 40 (Error ''Error'' ''Network Error'') (JStr ''payload'') 2 ''QmA'')
        = Resolve (JStr ''payload'')
   \<and> fst (fetchWithRetry (failing_twice 40 (Error ''Error'' ''Network Error'') (JStr ''payload''))
          ''QmA'' 0 (initial 0)) = Inr (JStr ''payload'')
   \<and> calls (snd (fetchWithRetry (failing_twice 40 (Error ''Error'' ''Network Error'') (JStr ''payload''))
          ''QmA'' 0 (initial 0))) = [''QmA'', ''QmA'', ''QmA'']
   \<and> transient_failure (snd (rejecting 40 (Error ''Error'' ''Network Error'') 0 ''QmA''))
   \<and> transient_failure (snd (rejecting 40 (Error ''Error'' ''Network Error'') 1 ''QmA''))
   \<and> transient_failure (snd (rejecting 40 (Error ''Error'' ''Network Error'') 2 ''QmA''))
   \<and> fst (fetchWithRetry (rejecting 40 (Error ''Error'' ''Network Error'')) ''QmA'' 0 (initial 0))
        = Inr JNull
   \<and> calls (snd (fetchWithRetry (rejecting 40 (Error ''Error'' ''Network Error'')) ''QmA'' 0
          (initial 0))) = [''QmA'', ''QmA'', ''QmA'']"
proof -
  note t = transient_network_error
  have two: "\<And>i::nat. i < 2 \<longleftrightarrow> i = 0 \<or> i = 1"
    by auto
  have three: "\<And>i::nat. i < 3 \<longleftrightarrow> i = 0 \<or> i = 1 \<or> i = 2"
    by auto
  have rep: "replicate 3 ''QmA'' = [''QmA'', ''QmA'', ''QmA'']"
    by (simp add: numeral_3_eq_3)
  show ?thesis
    using t
      fetchWithRetry_retry_limit
        [where net = "failing_twice 40 (Error ''Error'' ''Network Error'') (JStr ''payload'')"
           and w = "initial 0" and CID = "''QmA''" and k = 2 and v = "JStr ''payload''"
           and e = "Error ''Error'' ''Network Error''"]
      fetchWithRetry_retry_limit
        [where net = "rejecting 40 (Error ''Error'' ''Network Error'')"
           and w = "initial 0" and CID = "''QmA''" and k = 0 and v = JNull
           and e = "Error ''Error'' ''Network Error''"]
    by (simp add: failing_twice_def rejecting_def initial_def DEFAULT_MAX_RETRIES_def two three rep)
qed

text \<open>Stated for every failure that is not an authorization failure, the property
  fails.  When the collaborator rejects every call without a reason (\<^verbatim>\<open>undefined\<close>),
  \<^verbatim>\<open>isAuthError\<close> is false and the collaborator is invoked three times, but then
  \<^verbatim>\<open>normalizedError.message\<close> in line 105 raises a TypeError: the result is a rejection,
  not \<^verbatim>\<open>null\<close>.  When it rejects with the object \<^verbatim>\<open>{ message: 5 }\<close>, which meets none of the
  five conditions, the first test of the classification raises a TypeError and
  \<^verbatim>\<open>fetchWithRetry\<close> is rejected after one invocation.\<close>

lemma fetchWithRetry_rejecting_undefined:
  "fetchWithRetry (rejecting 40 JUndefined) CID 0 w =
     (Inl (TypeError ''Cannot read properties of null or undefined''),
      w\<lparr>calls := calls w @ [CID, CID, CID], clock := clock w + 3120\<rparr>)"
  by (simp add: fetchWithRetry.simps invoke_def rejecting_def isAuthError_nullish sleep_def
      log_message_then_null_def get_def DEFAULT_MAX_RETRIES_def RETRY_DELAY_def)

theorem fetchWithRetry_retry_limit_counterexample:
  "\<not> spec_auth_error JUndefined
   \<and> isAuthError JUndefined = Inr False
   \<and> fst (fetchWithRetry (rejecting 40 JUndefined) ''QmA'' 0 (initial 0))
       = Inl (TypeError ''Cannot read properties of null or undefined'')
   \<and> calls (snd (fetchWithRetry (rejecting 40 JUndefined) ''QmA'' 0 (initial 0)))
       = [''QmA'', ''QmA'', ''QmA'']
   \<and> \<not> spec_auth_error (JObj [(''message'', JNum 5)])
   \<and> fst (fetchWithRetry (rejecting 40 (JObj [(''message'', JNum 5)])) ''QmA'' 0 (initial 0))
       = Inl (TypeError ''includes is not a function'')
   \<and> calls (snd (fetchWithRetry (rejecting 40 (JObj [(''message'', JNum 5)])) ''QmA'' 0
          (initial 0)))
       = [''QmA'']"
proof -
  have "fetchWithRetry (rejecting 40 (JObj [(''message'', JNum 5)])) ''QmA'' 0 (initial 0)
      = (Inl (TypeError ''includes is not a function''),
         snd (invoke (rejecting 40 (JObj [(''message'', JNum 5)])) ''QmA'' (initial 0)))"
    by (subst fetchWithRetry.simps)
       (simp add: invoke_def rejecting_def isAuthError_def message_includes_def opt_get_def)
  then show ?thesis
    by (simp add: fetchWithRetry_rejecting_undefined isAuthError_nullish spec_auth_error_def
        message_contains_def initial_def invoke_def)
qed

section \<open>Effects and results of fetchWithRetry\<close>

lemma status_sleep [simp]: "status (sleep ms w) = status w"
  by (simp add: sleep_def)

lemma cache_sleep [simp]: "cache (sleep ms w) = cache w"
  by (simp add: sleep_def)

lemma clock_sleep [simp]: "clock (sleep ms w) = clock w + ms"
  by (simp add: sleep_def)

lemma invoke_simps [simp]:
  "status (snd (invoke net CID w)) = status w"
  "cache (snd (invoke net CID w)) = cache w"
  "calls (snd (invoke net CID w)) = calls w @ [CID]"
  "clock (snd (invoke net CID w)) = clock w + fst (net (length (calls w)) CID)"
  "fst (invoke net CID w) = snd (net (length (calls w)) CID)"
  by (simp_all add: invoke_def)

lemma fetchWithRetry_unfold:
  "fetchWithRetry net CID rc w =
     (case snd (net (length (calls w)) CID) of
        Resolve response \<Rightarrow> (Inr response, snd (invoke net CID w))
      | Reject e \<Rightarrow>
          (case isAuthError e of
             Inl exn \<Rightarrow> (Inl exn, snd (invoke net CID w))
           | Inr b \<Rightarrow>
               if b then (log_message_then_null e, snd (invoke net CID w))
               else if rc < DEFAULT_MAX_RETRIES
               then fetchWithRetry net CID (rc + 1)
                      (sleep (RETRY_DELAY * (rc + 1)) (snd (invoke net CID w)))
               else (log_message_then_null e, snd (invoke net CID w))))"
  by (subst fetchWithRetry.simps)
     (simp add: invoke_def split: outcome.splits sum.splits bool.splits)

lemma fetchWithRetry_frame:
  "status (snd (fetchWithRetry net CID rc w)) = status w
   \<and> cache (snd (fetchWithRetry net CID rc w)) = cache w
   \<and> clock w \<le> clock (snd (fetchWithRetry net CID rc w))
   \<and> (\<exists>cs. calls (snd (fetchWithRetry net CID rc w)) = calls w @ CID # cs \<and> set cs \<subseteq> {CID})"
proof (induction net CID rc w rule: fetchWithRetry.induct)
  case (1 net CID rc w)
  show ?case
  proof (cases "snd (net (length (calls w)) CID)")
    case (Resolve v)
    then show ?thesis by (subst (1 2 3 4) fetchWithRetry_unfold) simp
  next
    case (Reject e)
    show ?thesis
    proof (cases "isAuthError e")
      case (Inl exn)
      with Reject show ?thesis by (subst (1 2 3 4) fetchWithRetry_unfold) simp
    next
      case (Inr b)
      show ?thesis
      proof (cases "\<not> b \<and> rc < DEFAULT_MAX_RETRIES")
        case False
        with Reject Inr show ?thesis by (subst (1 2 3 4) fetchWithRetry_unfold) auto
      next
        case True
        have inv: "invoke net CID w = (Reject e, snd (invoke net CID w))"
          using Reject by (simp add: invoke_def)
        have IH: "status (snd (fetchWithRetry net CID (rc + 1) (sleep (RETRY_DELAY * (rc + 1)) (snd (invoke net CID w))))) = status (sleep (RETRY_DELAY * (rc + 1)) (snd (invoke net CID w)))
   \<and> cache (snd (fetchWithRetry net CID (rc + 1) (sleep (RETRY_DELAY * (rc + 1)) (snd (invoke net CID w))))) = cache (sleep (RETRY_DELAY * (rc + 1)) (snd (invoke net CID w)))
   \<and> clock (sleep (RETRY_DELAY * (rc + 1)) (snd (invoke net CID w))) \<le> clock (snd (fetchWithRetry net CID (rc + 1) (sleep (RETRY_DELAY * (rc + 1)) (snd (invoke net CID w)))))
   \<and> (\<exists>cs. calls (snd (fetchWithRetry net CID (rc + 1) (sleep (RETRY_DELAY * (rc + 1)) (snd (invoke net CID w))))) = calls (sleep (RETRY_DELAY * (rc + 1)) (snd (invoke net CID w))) @ CID # cs \<and> set cs \<subseteq> {CID})"
          using "1.IH" [OF inv [symmetric] refl Inr] True by simp
        have step: "fetchWithRetry net CID rc w
            = fetchWithRetry net CID (rc + 1) (sleep (RETRY_DELAY * (rc + 1)) (snd (invoke net CID w)))"
          using Reject Inr True by (subst fetchWithRetry_unfold) simp
        from IH show ?thesis
          unfolding step by auto
      qed
    qed
  qed
qed

lemma is_TypeError_TypeError [simp]: "msg \<noteq> [] \<Longrightarrow> is_TypeError (TypeError msg)"
  by (simp add: TypeError_def)

lemma get_rejects_TypeError: "get x p = Inl exn \<Longrightarrow> is_TypeError exn"
  by (auto simp: get_def split: if_splits)

lemma js_in_rejects_TypeError: "js_in p x = Inl exn \<Longrightarrow> is_TypeError exn"
  by (cases x) auto

lemma opt_includes_rejects_TypeError: "opt_includes m s = Inl exn \<Longrightarrow> is_TypeError exn"
  by (cases m) auto

lemma isAuthError_rejects_TypeError: "isAuthError e = Inl exn \<Longrightarrow> is_TypeError exn"
  by (auto simp: isAuthError_def message_includes_def lor_def land_def
      split: sum.splits bool.splits if_splits
      dest: js_in_rejects_TypeError opt_includes_rejects_TypeError)

lemma log_message_cases:
  "log_message_then_null e = Inr JNull \<or> (\<exists>exn. log_message_then_null e = Inl exn \<and> is_TypeError exn)"
  by (auto simp: log_message_then_null_def get_def)

text \<open>What \<^verbatim>\<open>fetchWithRetry\<close> can settle with: a payload a call for this CID was fulfilled
  with, \<^verbatim>\<open>null\<close>, or a TypeError raised in its own \<^verbatim>\<open>catch\<close> block.\<close>

lemma fetchWithRetry_result:
  "(case fst (fetchWithRetry net CID rc w) of
      Inr v \<Rightarrow> v = JNull \<or> (\<exists>n. snd (net n CID) = Resolve v)
    | Inl exn \<Rightarrow> is_TypeError exn)"
proof (induction net CID rc w rule: fetchWithRetry.induct)
  case (1 net CID rc w)
  show ?case
  proof (cases "snd (net (length (calls w)) CID)")
    case (Resolve v)
    then show ?thesis by (subst fetchWithRetry_unfold) auto
  next
    case (Reject e)
    show ?thesis
    proof (cases "isAuthError e")
      case (Inl exn)
      with Reject show ?thesis
        by (subst fetchWithRetry_unfold) (simp add: isAuthError_rejects_TypeError)
    next
      case (Inr b)
      show ?thesis
      proof (cases "\<not> b \<and> rc < DEFAULT_MAX_RETRIES")
        case False
        with Reject Inr log_message_cases [of e] show ?thesis
          by (subst fetchWithRetry_unfold) auto
      next
        case True
        have inv: "invoke net CID w = (Reject e, snd (invoke net CID w))"
          using Reject by (simp add: invoke_def)
        have step: "fetchWithRetry net CID rc w
            = fetchWithRetry net CID (rc + 1) (sleep (RETRY_DELAY * (rc + 1)) (snd (invoke net CID w)))"
          using Reject Inr True by (subst fetchWithRetry_unfold) simp
        show ?thesis
          unfolding step using "1.IH" [OF inv [symmetric] refl Inr] True by simp
      qed
    qed
  qed
qed

lemma fetchWithRetry_well_formed:
  assumes "\<forall>n e. snd (net n CID) = Reject e \<longrightarrow> well_formed_error e"
  shows "\<exists>v. fst (fetchWithRetry net CID rc w) = Inr v"
  using assms
proof (induction net CID rc w rule: fetchWithRetry.induct)
  case (1 net CID rc w)
  show ?case
  proof (cases "snd (net (length (calls w)) CID)")
    case (Resolve v)
    then show ?thesis by (subst fetchWithRetry_unfold) auto
  next
    case (Reject e)
    with "1.prems" have wf: "well_formed_error e" by blast
    then have au: "isAuthError e = Inr (spec_auth_error e)"
      by (rule isAuthError_well_formed)
    show ?thesis
    proof (cases "\<not> spec_auth_error e \<and> rc < DEFAULT_MAX_RETRIES")
      case False
      with Reject au wf show ?thesis
        by (subst fetchWithRetry_unfold) (auto simp: log_message_well_formed)
    next
      case True
      have inv: "invoke net CID w = (Reject e, snd (invoke net CID w))"
        using Reject by (simp add: invoke_def)
      have step: "fetchWithRetry net CID rc w
          = fetchWithRetry net CID (rc + 1) (sleep (RETRY_DELAY * (rc + 1)) (snd (invoke net CID w)))"
        using Reject au True by (subst fetchWithRetry_unfold) simp
      show ?thesis
        unfolding step using "1.IH" [OF inv [symmetric] refl au] True "1.prems" by simp
    qed
  qed
qed

subsection \<open>updateStatus, lookup and the two continuations of fetchCIDContent\<close>

lemma updateStatus_simps [simp]:
  "clock (updateStatus CID u w) = clock w"
  "cache (updateStatus CID u w) = cache w"
  "calls (updateStatus CID u w) = calls w"
  by (simp_all add: updateStatus_def)

lemma status_updateStatus_other:
  "CID' \<noteq> CID \<Longrightarrow> status (updateStatus CID u w) CID' = status w CID'"
  by (simp add: updateStatus_def)

lemma lookup_simps [simp]:
  "fst (lookup CID w) = fst (cache_get (clock w) CID (cache w))"
  "cache (snd (lookup CID w)) = snd (cache_get (clock w) CID (cache w))"
  "status (snd (lookup CID w)) = status w"
  "clock (snd (lookup CID w)) = clock w"
  "calls (snd (lookup CID w)) = calls w"
  by (simp_all add: lookup_def)

lemma on_data_simps [simp]:
  "fst (on_data CID data w) = Inr data"
  "calls (snd (on_data CID data w)) = calls w"
  "clock (snd (on_data CID data w)) = clock w"
  "cache (snd (on_data CID data w)) = cache_set (clock w) CID data (cache w)"
  by (simp_all add: on_data_def)

lemma status_on_data_other:
  "CID' \<noteq> CID \<Longrightarrow> status (snd (on_data CID data w)) CID' = status w CID'"
  by (simp add: on_data_def status_updateStatus_other)

lemma on_rejection_simps [simp]:
  "calls (snd (on_rejection CID exn w)) = calls w"
  "clock (snd (on_rejection CID exn w)) = clock w"
  "cache (snd (on_rejection CID exn w)) = cache w"
  by (simp_all add: on_rejection_def split: sum.splits)

lemma status_on_rejection_other:
  "CID' \<noteq> CID \<Longrightarrow> status (snd (on_rejection CID exn w)) CID' = status w CID'"
  by (simp add: on_rejection_def status_updateStatus_other split: sum.splits)

lemma on_rejection_TypeError:
  "is_TypeError exn \<Longrightarrow> fst (on_rejection CID exn w) = Inr JNull"
  by (cases exn rule: is_TypeError.cases) (auto simp: on_rejection_def get_def)

lemma started_simps [simp]:
  "clock (started CID w) = clock w"
  "calls (started CID w) = calls w"
  "cache (started CID w) = snd (cache_get (clock w) CID (cache w))"
  "status (started CID w) CID =
     Some \<lparr>loading = Some True, error = Some JNull, lastUpdated = Some (clock w)\<rparr>"
  by (simp_all add: started_def updateStatus_def)

lemma status_started_other:
  "CID' \<noteq> CID \<Longrightarrow> status (started CID w) CID' = status w CID'"
  by (simp add: started_def status_updateStatus_other)

lemma fetchCIDContent_empty: "fetchCIDContent net [] w = (Inr JNull, w)"
  by (simp add: fetchCIDContent_def)

lemma fetchCIDContent_hit:
  assumes "CID \<noteq> []" and "truthy (fst (cache_get (clock w) CID (cache w)))"
  shows "fetchCIDContent net CID w = (Inr (fst (cache_get (clock w) CID (cache w))), started CID w)"
  using assms by (simp add: fetchCIDContent_def started_def lookup_def)

lemma fetchCIDContent_miss:
  assumes "CID \<noteq> []" and "\<not> truthy (fst (cache_get (clock w) CID (cache w)))"
  shows "fetchCIDContent net CID w =
           (case fst (fetchWithRetry net CID 0 (started CID w)) of
              Inr data \<Rightarrow> on_data CID data (snd (fetchWithRetry net CID 0 (started CID w)))
            | Inl exn \<Rightarrow> on_rejection CID exn (snd (fetchWithRetry net CID 0 (started CID w))))"
  using assms
  by (simp add: fetchCIDContent_def started_def lookup_def case_prod_unfold split: sum.splits)

section \<open>Facts about the cache\<close>


lemma cache_get_live:
  assumes "map_of c k = Some (v, t)" and "now < t + DEFAULT_TTL"
  shows "cache_get now k c = (v, (k, v, t) # cache_delete k c)"
  using assms by (simp add: cache_get_def)

lemma cache_get_truthy:
  assumes "truthy (fst (cache_get now k c))"
  shows "\<exists>t. map_of c k = Some (fst (cache_get now k c), t) \<and> now < t + DEFAULT_TTL
           \<and> snd (cache_get now k c) = (k, fst (cache_get now k c), t) # cache_delete k c"
  using assms by (auto simp: cache_get_def split: option.splits if_splits)

lemma cache_get_stored_falsy:
  assumes "map_of c k = Some (v, t)" and "\<not> truthy v"
  shows "\<not> truthy (fst (cache_get now k c))"
  using assms by (simp add: cache_get_def)

lemma map_of_cache_set_same: "map_of (cache_set now k v c) k = Some (v, now)"
  by (simp add: cache_set_def CACHE_MAX_def)

section \<open>Status updates of one CID leave the others alone\<close>

text \<open>
  C8.  \<^verbatim>\<open>updateStatus\<close> is the only writer of the status mapping; the specification's
  \<^verbatim>\<open>markLoading\<close>, \<^verbatim>\<open>markSuccess\<close> and \<^verbatim>\<open>markError\<close> are its three call sites.  For two
  distinct CIDs, an update of one of them with any set of fields leaves the entry of the
  other as it was, and so does a whole call of \<^verbatim>\<open>fetchCIDContent\<close> for the first.
\<close>

theorem updateStatus_preserves_other_entries:
  assumes "CID' \<noteq> CID"
  shows "status (updateStatus CID updates w) CID' = status w CID'
       \<and> status (snd (fetchCIDContent net CID w)) CID' = status w CID'"
proof
  show "status (updateStatus CID updates w) CID' = status w CID'"
    using assms by (rule status_updateStatus_other)
  show "status (snd (fetchCIDContent net CID w)) CID' = status w CID'"
  proof (cases "CID = []")
    case True
    then show ?thesis by (simp add: fetchCIDContent_empty)
  next
    case False
    note ne = this
    show ?thesis
    proof (cases "truthy (fst (cache_get (clock w) CID (cache w)))")
      case True
      then show ?thesis
        using assms by (simp add: fetchCIDContent_hit [OF ne] status_started_other)
    next
      case False
      have "status (snd (fetchWithRetry net CID 0 (started CID w))) CID' = status w CID'"
        using assms by (simp add: fetchWithRetry_frame status_started_other)
      then show ?thesis
        using assms
        by (simp add: fetchCIDContent_miss [OF ne False] status_on_data_other
            status_on_rejection_other split: sum.splits)
    qed
  qed
qed

theorem updateStatus_preserves_other_entries_witness:
  "''QmB'' \<noteq> ''QmA''
   \<and> status (updateStatus ''QmA'' \<lparr>set_loading = Some False, set_error = Some (JStr ''boom'')\<rparr>
        (updateStatus ''QmB'' \<lparr>set_loading = Some True, set_error = Some JNull\<rparr> (initial 7)))
        ''QmB''
      = Some \<lparr>loading = Some True, error = Some JNull, lastUpdated = Some 7\<rparr>"
  using updateStatus_preserves_other_entries
    [where CID = "''QmA''" and CID' = "''QmB''"
       and updates = "\<lparr>set_loading = Some False, set_error = Some (JStr ''boom'')\<rparr>"
       and w = "updateStatus ''QmB'' \<lparr>set_loading = Some True, set_error = Some JNull\<rparr> (initial 7)"]
  by (simp add: updateStatus_def initial_def)

section \<open>An empty CID\<close>

text \<open>
  C7.  For the empty string, the only falsy value of the parameter's type,
  \<^verbatim>\<open>fetchCIDContent\<close> is fulfilled with \<^verbatim>\<open>null\<close> and leaves the whole state as it was: no
  invocation of the collaborator is logged, and the three readers answer for that key
  what they answered before; in a fresh hook they answer \<^verbatim>\<open>false\<close>, \<^verbatim>\<open>null\<close> and
  \<^verbatim>\<open>undefined\<close>.
\<close>

theorem fetchCIDContent_empty_CID:
  "fetchCIDContent net [] w = (Inr JNull, w)
   \<and> isLoading [] (snd (fetchCIDContent net [] w)) = isLoading [] w
   \<and> getError [] (snd (fetchCIDContent net [] w)) = getError [] w
   \<and> getLastUpdated [] (snd (fetchCIDContent net [] w)) = getLastUpdated [] w
   \<and> isLoading [] (snd (fetchCIDContent net [] (initial now))) = False
   \<and> getError [] (snd (fetchCIDContent net [] (initial now))) = JNull
   \<and> getLastUpdated [] (snd (fetchCIDContent net [] (initial now))) = None"
  by (simp add: fetchCIDContent_empty isLoading_def getError_def getLastUpdated_def initial_def)

section \<open>A cache hit\<close>



section \<open>A falsy cached value is a miss\<close>

text \<open>
  C10.  The cache-hit branch tests the value \<^verbatim>\<open>cache.get\<close> returned, not the presence of
  the key.  When the cache holds a falsy value under the CID, such as the \<^verbatim>\<open>null\<close> that a
  failed fetch stored, a call of \<^verbatim>\<open>fetchCIDContent\<close> for that CID invokes the collaborator
  again: the log of calls grows by at least one entry, all of the new entries being for
  this CID.
\<close>

theorem fetchCIDContent_falsy_cached_value_refetches:
  assumes "CID \<noteq> []"
    and "map_of (cache w) CID = Some (v, t)"
    and "\<not> truthy v"
  shows "\<exists>cs. calls (snd (fetchCIDContent net CID w)) = calls w @ CID # cs \<and> set cs \<subseteq> {CID}"
proof -
  have miss: "\<not> truthy (fst (cache_get (clock w) CID (cache w)))"
    using assms(2,3) by (rule cache_get_stored_falsy)
  obtain cs where "calls (snd (fetchWithRetry net CID 0 (started CID w))) = calls w @ CID # cs"
    and "set cs \<subseteq> {CID}"
    using fetchWithRetry_frame [of net CID 0 "started CID w"] by auto
  then show ?thesis
    by (simp add: fetchCIDContent_miss [OF assms(1) miss] split: sum.splits)
qed

lemma fetchWithRetry_network_down:
  "fetchWithRetry network_down CID 0 w =
     (Inr JNull, w\<lparr>calls := calls w @ [CID, CID, CID], clock := clock w + 3120\<rparr>)"
  using transient_network_error
  by (simp add: fetchWithRetry_transient network_down_def rejecting_def sleep_def
      DEFAULT_MAX_RETRIES_def RETRY_DELAY_def)

lemma failed_fetch_example:
  "fetchCIDContent network_down ''QmA'' (initial 0) =
     (Inr JNull,
      \<lparr>clock = 3120, cache = [(''QmA'', JNull, 3120)],
       status = [''QmA'' \<mapsto> \<lparr>loading = Some False, error = Some JNull, lastUpdated = Some 3120\<rparr>],
       calls = [''QmA'', ''QmA'', ''QmA'']\<rparr>)"
  by (simp add: fetchCIDContent_def fetchWithRetry_network_down lookup_def updateStatus_def
      on_data_def cache_get_def cache_set_def cache_delete_def CACHE_MAX_def initial_def)

lemma second_failed_fetch_example:
  "calls (snd (fetchCIDContent network_down ''QmA''
      (snd (fetchCIDContent network_down ''QmA'' (initial 0)))))
   = [''QmA'', ''QmA'', ''QmA'', ''QmA'', ''QmA'', ''QmA'']"
  by (simp add: failed_fetch_example)
     (simp add: fetchCIDContent_def fetchWithRetry_network_down lookup_def updateStatus_def
      on_data_def cache_get_def DEFAULT_TTL_def)

theorem fetchCIDContent_falsy_cached_value_refetches_witness:
  "''QmA'' \<noteq> []
   \<and> map_of (cache (snd (fetchCIDContent network_down ''QmA'' (initial 0)))) ''QmA''
       = Some (JNull, 3120)
   \<and> \<not> truthy JNull
   \<and> (\<exists>cs. calls (snd (fetchCIDContent network_down ''QmA''
                (snd (fetchCIDContent network_down ''QmA'' (initial 0)))))
             = calls (snd (fetchCIDContent network_down ''QmA'' (initial 0))) @ ''QmA'' # cs
           \<and> set cs \<subseteq> {''QmA''})"
proof -
  have stored: "map_of (cache (snd (fetchCIDContent network_down ''QmA'' (initial 0)))) ''QmA''
       = Some (JNull, 3120)"
    by (simp add: failed_fetch_example)
  show ?thesis
    using stored
      fetchCIDContent_falsy_cached_value_refetches
        [where CID = "''QmA''" and v = JNull and t = 3120 and net = network_down
           and w = "snd (fetchCIDContent network_down ''QmA'' (initial 0))"]
    by simp
qed

section \<open>Two calls in sequence\<close>

text \<open>
  C4, as the code has it.  When a call of \<^verbatim>\<open>fetchCIDContent\<close> has been fulfilled with a
  truthy value, the cache holds that value under the CID in an entry that has not expired;
  if the call went to the network, the entry was stored when the call completed.  A second
  call for the CID that starts before the entry expires (less than \<^verbatim>\<open>DEFAULT_TTL\<close>, 30
  minutes, after it was stored) is fulfilled with the same value and invokes no
  collaborator.
\<close>

theorem fetchCIDContent_second_call_from_cache:
  assumes "fetchCIDContent net CID w = (Inr v, w1)"
    and "truthy v"
  shows "\<exists>t. map_of (cache w1) CID = Some (v, t)
           \<and> clock w1 < t + DEFAULT_TTL
           \<and> (calls w1 \<noteq> calls w \<longrightarrow> t = clock w1)
           \<and> (\<forall>ms net'. clock w1 + ms < t + DEFAULT_TTL \<longrightarrow>
                 fst (fetchCIDContent net' CID (sleep ms w1)) = Inr v
               \<and> calls (snd (fetchCIDContent net' CID (sleep ms w1))) = calls w1)"
proof -
  have ne: "CID \<noteq> []"
    using assms by (auto simp: fetchCIDContent_empty)
  have entry: "\<exists>t. map_of (cache w1) CID = Some (v, t) \<and> clock w1 < t + DEFAULT_TTL
                 \<and> (calls w1 \<noteq> calls w \<longrightarrow> t = clock w1)"
  proof (cases "truthy (fst (cache_get (clock w) CID (cache w)))")
    case True
    from cache_get_truthy [OF True] obtain t where
      t: "map_of (cache w) CID = Some (fst (cache_get (clock w) CID (cache w)), t)"
         "clock w < t + DEFAULT_TTL"
         "snd (cache_get (clock w) CID (cache w))
            = (CID, fst (cache_get (clock w) CID (cache w)), t) # cache_delete CID (cache w)"
      by blast
    from assms(1) have "v = fst (cache_get (clock w) CID (cache w))" "w1 = started CID w"
      by (simp_all add: fetchCIDContent_hit [OF ne True])
    with t show ?thesis by simp
  next
    case False
    let ?r = "fetchWithRetry net CID 0 (started CID w)"
    from assms have "fst ?r = Inr v" "w1 = snd (on_data CID v (snd ?r))"
      by (auto simp: fetchCIDContent_miss [OF ne False] on_rejection_def on_data_def
          split: sum.splits)
    then show ?thesis
      by (simp add: map_of_cache_set_same DEFAULT_TTL_def)
  qed
  then obtain t where t: "map_of (cache w1) CID = Some (v, t)" "clock w1 < t + DEFAULT_TTL"
    "calls w1 \<noteq> calls w \<longrightarrow> t = clock w1"
    by blast
  have "fst (fetchCIDContent net' CID (sleep ms w1)) = Inr v
      \<and> calls (snd (fetchCIDContent net' CID (sleep ms w1))) = calls w1"
    if "clock w1 + ms < t + DEFAULT_TTL" for ms net'
  proof -
    have get: "cache_get (clock (sleep ms w1)) CID (cache (sleep ms w1))
                 = (v, (CID, v, t) # cache_delete CID (cache w1))"
      using t(1) that by (simp add: cache_get_live)
    then have "truthy (fst (cache_get (clock (sleep ms w1)) CID (cache (sleep ms w1))))"
      using assms(2) by simp
    from fetchCIDContent_hit [OF ne this, of net'] get show ?thesis
      by simp
  qed
  with t show ?thesis by blast
qed

lemma successful_fetch_example:
  "fetchCIDContent (resolving 40 (JStr ''payload'')) ''QmA'' (initial 0) =
     (Inr (JStr ''payload''),
      \<lparr>clock = 40, cache = [(''QmA'', JStr ''payload'', 40)],
       status = [''QmA'' \<mapsto> \<lparr>loading = Some False, error = Some JNull, lastUpdated = Some 40\<rparr>],
       calls = [''QmA'']\<rparr>)"
  by (simp add: fetchCIDContent_def fetchWithRetry_Resolve resolving_def lookup_def
      updateStatus_def on_data_def cache_get_def cache_set_def cache_delete_def CACHE_MAX_def
      initial_def)

theorem fetchCIDContent_second_call_from_cache_witness:
  "fst (fetchCIDContent (resolving 40 (JStr ''payload'')) ''QmA'' (initial 0))
     = Inr (JStr ''payload'')
   \<and> truthy (JStr ''payload'')
   \<and> clock (snd (fetchCIDContent (resolving 40 (JStr ''payload'')) ''QmA'' (initial 0))) + 60000
       < 40 + DEFAULT_TTL
   \<and> fst (fetchCIDContent network_down ''QmA''
        (sleep 60000 (snd (fetchCIDContent (resolving 40 (JStr ''payload'')) ''QmA'' (initial 0)))))
     = Inr (JStr ''payload'')
   \<and> calls (snd (fetchCIDContent network_down ''QmA''
        (sleep 60000 (snd (fetchCIDContent (resolving 40 (JStr ''payload'')) ''QmA'' (initial 0))))))
     = [''QmA'']"
proof -
  let ?w1 = "\<lparr>clock = 40, cache = [(''QmA'', JStr ''payload'', 40)],
       status = [''QmA'' \<mapsto> \<lparr>loading = Some False, error = Some JNull, lastUpdated = Some 40\<rparr>],
       calls = [''QmA'']\<rparr>"
  have tr: "truthy (JStr ''payload'')" by simp
  from fetchCIDContent_second_call_from_cache [OF successful_fetch_example tr]
  obtain t where t: "map_of (cache ?w1) ''QmA'' = Some (JStr ''payload'', t)"
    and later: "\<forall>ms net'. clock ?w1 + ms < t + DEFAULT_TTL \<longrightarrow>
                 fst (fetchCIDContent net' ''QmA'' (sleep ms ?w1)) = Inr (JStr ''payload'')
               \<and> calls (snd (fetchCIDContent net' ''QmA'' (sleep ms ?w1))) = calls ?w1"
    by blast
  from t have "t = 40" by simp
  with later [rule_format, of 60000 network_down] show ?thesis
    by (simp add: successful_fetch_example DEFAULT_TTL_def)
qed

text \<open>Stated for every CID, the property fails when the first call fails: with a
  collaborator that
  rejects every call with a network error, the first call completes with \<^verbatim>\<open>null\<close>
  after three invocations, and the second call invokes the collaborator three more
  times.\<close>

theorem fetchCIDContent_second_call_counterexample:
  "fst (fetchCIDContent network_down ''QmA'' (initial 0)) = Inr JNull
   \<and> calls (snd (fetchCIDContent network_down ''QmA'' (initial 0)))
       = [''QmA'', ''QmA'', ''QmA'']
   \<and> calls (snd (fetchCIDContent network_down ''QmA''
        (snd (fetchCIDContent network_down ''QmA'' (initial 0)))))
       = [''QmA'', ''QmA'', ''QmA'', ''QmA'', ''QmA'', ''QmA'']"
  by (simp add: second_failed_fetch_example) (simp add: failed_fetch_example)

section \<open>The status after the retries are exhausted\<close>

text \<open>
  C3.  With a collaborator that rejects every call with a network error, a call of
  \<^verbatim>\<open>fetchCIDContent\<close> in a fresh hook is fulfilled with \<^verbatim>\<open>null\<close> after three invocations, and
  then \<^verbatim>\<open>getError\<close> answers \<^verbatim>\<open>null\<close> for the CID: \<^verbatim>\<open>fetchWithRetry\<close> has turned the failure
  into the value \<^verbatim>\<open>null\<close>, so the \<^verbatim>\<open>catch\<close> block of \<^verbatim>\<open>fetchCIDContent\<close> that records the
  message is not reached.
\<close>

theorem fetchCIDContent_exhausted_retries_leave_no_error:
  "fst (fetchCIDContent network_down ''QmA'' (initial 0)) = Inr JNull
   \<and> calls (snd (fetchCIDContent network_down ''QmA'' (initial 0)))
       = [''QmA'', ''QmA'', ''QmA'']
   \<and> isLoading ''QmA'' (snd (fetchCIDContent network_down ''QmA'' (initial 0))) = False
   \<and> getError ''QmA'' (snd (fetchCIDContent network_down ''QmA'' (initial 0))) = JNull"
  by (simp add: failed_fetch_example isLoading_def getError_def)

text \<open>The same for every CID, state and collaborator: three transient failures after a
  cache miss end with the result \<^verbatim>\<open>null\<close>, \<^verbatim>\<open>loading = false\<close> and no error message.\<close>

lemma fetchCIDContent_transient_failures_status:
  assumes "CID \<noteq> []"
    and "\<not> truthy (fst (cache_get (clock w) CID (cache w)))"
    and "\<forall>i<3. transient_failure (snd (net (length (calls w) + i) CID))"
  shows "fst (fetchCIDContent net CID w) = Inr JNull
       \<and> isLoading CID (snd (fetchCIDContent net CID w)) = False
       \<and> getError CID (snd (fetchCIDContent net CID w)) = JNull"
proof -
  let ?r = "fetchWithRetry net CID 0 (started CID w)"
  have "\<forall>i\<le>DEFAULT_MAX_RETRIES - 0.
          transient_failure (snd (net (length (calls (started CID w)) + i) CID))"
    using assms(3) by (simp add: DEFAULT_MAX_RETRIES_def)
  then have res: "fst ?r = Inr JNull"
    using retry_until_exhausted [of 0 net "started CID w" CID] by simp
  have st: "status (snd ?r) = status (started CID w)"
    by (simp add: fetchWithRetry_frame)
  show ?thesis
    by (simp add: fetchCIDContent_miss [OF assms(1,2)] res on_data_def updateStatus_def st
        isLoading_def getError_def)
qed

section \<open>No rejection reaches the caller of fetchCIDContent\<close>

lemma fetchCIDContent_result:
  "\<exists>v. fst (fetchCIDContent net CID w) = Inr v \<and> provenance net (cache w) CID v"
proof (cases "CID = []")
  case True
  then show ?thesis by (simp add: fetchCIDContent_empty provenance_def)
next
  case False
  note ne = this
  show ?thesis
  proof (cases "truthy (fst (cache_get (clock w) CID (cache w)))")
    case True
    from cache_get_truthy [OF True] True show ?thesis
      by (auto simp: fetchCIDContent_hit [OF ne True] provenance_def)
  next
    case False
    show ?thesis
      using fetchWithRetry_result [of net CID 0 "started CID w"]
      by (auto simp: fetchCIDContent_miss [OF ne False] on_rejection_TypeError provenance_def
          split: sum.splits)
  qed
qed

text \<open>
  C9, as the code has it.  Whatever the collaborator does, \<^verbatim>\<open>fetchCIDContent\<close> is
  fulfilled, never rejected: with \<^verbatim>\<open>null\<close>, with a payload the collaborator resolved a
  call for this CID with, or with a truthy value the cache held for the CID.
  \<^verbatim>\<open>fetchWithRetry\<close> is fulfilled, with \<^verbatim>\<open>null\<close> or such a payload, when every value the
  collaborator rejects a call for the CID with is well formed (neither \<^verbatim>\<open>null\<close> nor
  \<^verbatim>\<open>undefined\<close>, its \<^verbatim>\<open>message\<close> absent or a string); otherwise it may be rejected with a
  TypeError raised in its own \<^verbatim>\<open>catch\<close> block, which the \<^verbatim>\<open>catch\<close> block of
  \<^verbatim>\<open>fetchCIDContent\<close> turns into \<^verbatim>\<open>null\<close>.
\<close>

theorem fetchCIDContent_never_rejects:
  "(\<exists>v. fst (fetchCIDContent net CID w) = Inr v
      \<and> (v = JNull \<or> (\<exists>n. snd (net n CID) = Resolve v)
          \<or> (truthy v \<and> (\<exists>t. map_of (cache w) CID = Some (v, t)))))
   \<and> ((\<forall>n e. snd (net n CID) = Reject e \<longrightarrow> well_formed_error e) \<longrightarrow>
        (\<exists>v. fst (fetchWithRetry net CID retryCount w) = Inr v
           \<and> (v = JNull \<or> (\<exists>n. snd (net n CID) = Resolve v))))"
proof (intro conjI impI)
  show "\<exists>v. fst (fetchCIDContent net CID w) = Inr v
      \<and> (v = JNull \<or> (\<exists>n. snd (net n CID) = Resolve v)
          \<or> (truthy v \<and> (\<exists>t. map_of (cache w) CID = Some (v, t))))"
    using fetchCIDContent_result [of net CID w] by (simp add: provenance_def)
next
  assume "\<forall>n e. snd (net n CID) = Reject e \<longrightarrow> well_formed_error e"
  then obtain v where v: "fst (fetchWithRetry net CID retryCount w) = Inr v"
    using fetchWithRetry_well_formed by blast
  with fetchWithRetry_result [of net CID retryCount w]
  show "\<exists>v. fst (fetchWithRetry net CID retryCount w) = Inr v
           \<and> (v = JNull \<or> (\<exists>n. snd (net n CID) = Resolve v))"
    by simp
qed

text \<open>Stated for every error object, the property fails for \<^verbatim>\<open>fetchWithRetry\<close>: when the
  collaborator rejects with the object \<^verbatim>\<open>{ message: 403 }\<close>, whose message is a number, the call
  \<^verbatim>\<open>normalizedError?.message?.includes("403")\<close> in the \<^verbatim>\<open>catch\<close> block raises a TypeError and
  \<^verbatim>\<open>fetchWithRetry\<close> is rejected with it.\<close>

theorem fetchWithRetry_rejects_counterexample:
  "fst (fetchWithRetry (rejecting 40 (JObj [(''message'', JNum 403)])) ''QmA'' 0 (initial 0))
     = Inl (TypeError ''includes is not a function'')"
  by (subst fetchWithRetry_unfold)
     (simp add: rejecting_def initial_def isAuthError_def message_includes_def opt_get_def)

theorem fetchCIDContent_never_rejects_witness:
  "(\<forall>n. snd (network_down n ''QmA'') = Reject (Error ''Error'' ''Network Error''))
   \<and> well_formed_error (Error ''Error'' ''Network Error'')
   \<and> fst (fetchWithRetry network_down ''QmA'' 0 (initial 0)) = Inr JNull
   \<and> fst (fetchCIDContent (rejecting 40 (JObj [(''message'', JNum 403)])) ''QmA'' (initial 0))
       = Inr JNull
   \<and> getError ''QmA''
        (snd (fetchCIDContent (rejecting 40 (JObj [(''message'', JNum 403)])) ''QmA'' (initial 0)))
       = JStr ''includes is not a function''"
proof -
  have wf: "well_formed_error (Error ''Error'' ''Network Error'')"
    by (simp add: well_formed_error_def Error_def)
  have rej: "\<forall>n. snd (network_down n ''QmA'') = Reject (Error ''Error'' ''Network Error'')"
    by (simp add: network_down_def rejecting_def)
  have caught: "fetchWithRetry (rejecting 40 (JObj [(''message'', JNum 403)])) ''QmA'' 0 w
       = (Inl (TypeError ''includes is not a function''), snd (invoke (rejecting 40 (JObj [(''message'', JNum 403)])) ''QmA'' w))" for w
    by (subst fetchWithRetry_unfold)
       (simp add: rejecting_def isAuthError_def message_includes_def opt_get_def)
  have c: "fst (fetchCIDContent (rejecting 40 (JObj [(''message'', JNum 403)])) ''QmA'' (initial 0))
       = Inr JNull
   \<and> getError ''QmA''
        (snd (fetchCIDContent (rejecting 40 (JObj [(''message'', JNum 403)])) ''QmA'' (initial 0)))
       = JStr ''includes is not a function''"
    by (simp add: fetchCIDContent_def caught lookup_def cache_get_def initial_def updateStatus_def
        on_rejection_def get_def TypeError_def or_val_def getError_def)
  show ?thesis
    using wf rej c
      fetchCIDContent_never_rejects
        [where net = network_down and CID = "''QmA''" and w = "initial 0" and retryCount = 0]
    by (simp add: fetchWithRetry_network_down)
qed

section \<open>Facts about the event loop\<close>





lemma cache_request [simp]: "cache (snd (request net CID retryCount w)) = cache w"
  by (simp add: request_def)








subsection \<open>A single call run by the event loop is fetchCIDContent\<close>









section \<open>The results of fetchMultipleCIDs\<close>





end
